theory Spec2Isabelle
  imports Main "HOL-Library.Word"
begin

section \<open>The x86_64 System V calling convention of fcd (x86_64_systemv.cpp)\<close>

subsection \<open>Types and the target register model\<close>

text \<open>
  The LLVM types the convention distinguishes: \<open>isa<PointerType>\<close>,
  \<open>dyn_cast<IntegerType>\<close> with its bit width, the void type, named structures
  (for the register file \<open>struct.x86_regs\<close>), and everything else.
\<close>

datatype llvm_type =
    VoidTy
  | IntegerTy nat
  | PointerTy llvm_type
  | StructTy string
  | FloatTy
  | DoubleTy
  | ArrayTy nat llvm_type
  | VectorTy nat llvm_type

record llvm_FunctionType =
  getReturnType :: llvm_type
  params :: "llvm_type list"

text \<open>
  \<open>ValueInformation\<close> is a tag with a payload: \<open>IntegerRegister\<close> with a
  \<open>const TargetRegisterInfo*\<close>, or \<open>Stack\<close> with a frame offset. The type
  \<open>'r\<close> stands for the register descriptors of the target.
\<close>

datatype 'r ValueInformation =
    IntegerRegister 'r
  | Stack "64 word"

record 'r CallInformation =
  parameters :: "'r ValueInformation list"
  returnValues :: "'r ValueInformation list"

text \<open>
  An LLVM value is the function's argument, an instruction (its position in the
  function), an integer constant, or something else. An instruction has an opcode and
  its operands; a use pairs the used value (\<open>Use::get\<close>) with its user
  (\<open>Use::getUser\<close>).
\<close>

datatype llvm_value =
    Argument nat
  | Instruction nat
  | ConstantInt nat
  | OtherValue nat

datatype llvm_opcode = GetElementPtr | Load | Store | Add | OtherOpcode

record llvm_instruction =
  opcode :: llvm_opcode
  operands :: "llvm_value list"

record llvm_function =
  arg_types :: "llvm_type list"
  body :: "llvm_instruction list"

datatype llvm_use = Use (use_get: llvm_value) (use_getUser: nat)

text \<open>
  \<open>TargetInfo\<close> (pass_targetinfo.h) is a collaborator whose code is not part of
  these sources: it is a parameter of every definition below. \<open>registerInfo\<close> maps a
  \<open>getelementptr\<close> off the register file to the register it addresses, if any.
\<close>

record 'r TargetInfo =
  getPointerSize :: nat
  registerNamed :: "string \<Rightarrow> 'r"
  largestOverlappingRegister :: "'r \<Rightarrow> 'r"
  getStackPointer :: "'r"
  registerInfo :: "llvm_instruction \<Rightarrow> 'r option"

text \<open>
  MemorySSA is LLVM's: \<open>getMemoryAccess(load)->getDefiningAccess()\<close> gives the
  memory version a load reads, and \<open>isLiveOnEntryDef\<close> tells whether that is the
  state at function entry.
\<close>

datatype MemoryAccess = LiveOnEntryDef | MemoryDef nat | MemoryPhi nat

record MemorySSA =
  getDefiningAccess :: "nat \<Rightarrow> MemoryAccess"

definition isLiveOnEntryDef :: "MemoryAccess \<Rightarrow> bool" where
  "isLiveOnEntryDef a = (a = LiveOnEntryDef)"

datatype error = AssertionFailure | OutOfRange

subsection \<open>The convention's register tables\<close>

definition returnRegisters :: "string list" where
  "returnRegisters = [''rax'', ''rdx'']"

definition parameterRegisters :: "string list" where
  "parameterRegisters = [''rdi'', ''rsi'', ''rdx'', ''rcx'', ''r8'', ''r9'']"

subsection \<open>addEntriesForType and analyzeFunctionType\<close>

text \<open>
  The loop of \<open>addEntriesForType\<close>: the cursor \<open>regIter\<close> up to \<open>end\<close> is the list
  of register names still available. Each round appends one register entry, advances
  the cursor and takes up to 64 bits off \<open>bitSize\<close>. The bit size is an \<open>unsigned\<close>
  that only decreases, by at most itself, so it never wraps.
\<close>

fun addEntriesLoop ::
  "'r TargetInfo \<Rightarrow> 'r ValueInformation list \<Rightarrow> string list \<Rightarrow> nat
    \<Rightarrow> 'r ValueInformation list \<times> string list \<times> nat" where
  "addEntriesLoop targetInfo into [] bitSize = (into, [], bitSize)"
| "addEntriesLoop targetInfo into (reg # regIter) bitSize =
     (if bitSize \<noteq> 0
      then addEntriesLoop targetInfo
             (into @ [IntegerRegister (registerNamed targetInfo reg)])
             regIter (bitSize - min bitSize 64)
      else (into, reg # regIter, bitSize))"

text \<open>
  The result is the returned flag, the vector \<open>into\<close> and the cursor, both of which
  the C++ function updates through references.
\<close>

definition addEntriesForType ::
  "'r TargetInfo \<Rightarrow> 'r ValueInformation list \<Rightarrow> string list \<Rightarrow> llvm_type
    \<Rightarrow> bool \<times> 'r ValueInformation list \<times> string list" where
  "addEntriesForType targetInfo into regIter ty =
     (let pointerSize = getPointerSize targetInfo;
          ty' = (case ty of PointerTy _ \<Rightarrow> IntegerTy pointerSize | _ \<Rightarrow> ty)
      in case ty' of
           IntegerTy bitSize \<Rightarrow>
             (case addEntriesLoop targetInfo into regIter bitSize of
                (into', regIter', bitSize') \<Rightarrow> (bitSize' = 0, into', regIter'))
         | _ \<Rightarrow> (ty' = VoidTy, into, regIter))"

text \<open>
  The loop over the parameter types of \<open>analyzeFunctionType\<close>, sharing one cursor
  and returning at the first type that fails.
\<close>

fun addEntriesForParams ::
  "'r TargetInfo \<Rightarrow> 'r ValueInformation list \<Rightarrow> string list \<Rightarrow> llvm_type list
    \<Rightarrow> bool \<times> 'r ValueInformation list \<times> string list" where
  "addEntriesForParams targetInfo into regIter [] = (True, into, regIter)"
| "addEntriesForParams targetInfo into regIter (t # ts) =
     (case addEntriesForType targetInfo into regIter t of
        (ok, into', regIter') \<Rightarrow>
          if \<not> ok then (False, into', regIter')
          else addEntriesForParams targetInfo into' regIter' ts)"

text \<open>
  \<open>analyzeFunctionType\<close> returns its flag together with \<open>fillOut\<close>, which the C++
  function fills through a reference.
\<close>

definition analyzeFunctionType ::
  "'r TargetInfo \<Rightarrow> 'r CallInformation \<Rightarrow> llvm_FunctionType
    \<Rightarrow> bool \<times> 'r CallInformation" where
  "analyzeFunctionType targetInfo fillOut ty =
     (case addEntriesForType targetInfo (returnValues fillOut) returnRegisters
             (getReturnType ty) of
        (ok, rets, _) \<Rightarrow>
          if \<not> ok then (False, fillOut\<lparr>returnValues := rets\<rparr>)
          else
            (case addEntriesForParams targetInfo (parameters fillOut)
                    parameterRegisters (params ty) of
               (ok', ps, _) \<Rightarrow>
                 (ok', fillOut\<lparr>returnValues := rets, parameters := ps\<rparr>)))"

subsection \<open>matches\<close>

text \<open>
  \<open>std::string::substr(pos)\<close> is the rest of the string from \<open>pos\<close>, and throws
  \<open>std::out_of_range\<close> when \<open>pos\<close> is beyond the size.
\<close>

definition substr :: "string \<Rightarrow> nat \<Rightarrow> error + string" where
  "substr s pos = (if pos > length s then Inl OutOfRange else Inr (drop pos s))"

text \<open>
  The two operands of \<open>&&\<close> are evaluated left to right, the second one only when the
  first is true.
\<close>

definition matches :: "string \<Rightarrow> string \<Rightarrow> error + bool" where
  "matches targetName executableType =
     (case substr targetName 3 of
        Inl e \<Rightarrow> Inl e
      | Inr t \<Rightarrow>
          if t = ''x86''
          then (case substr executableType 6 of
                  Inl e \<Rightarrow> Inl e
                | Inr x \<Rightarrow> Inr (x = ''ELF 64''))
          else Inr False)"

definition getName :: string where
  "getName = ''x86_64/SystemV''"

subsection \<open>analyzeFunction\<close>

text \<open>
  The use list of a value: one use for every operand slot of an instruction of the
  function that holds the value. Each of them has the value itself as \<open>get()\<close> and the
  instruction as \<open>getUser()\<close>. The uses are listed by the position of the user; LLVM
  fixes no order, and the results below do not depend on one, since all the entries that
  the analysis appends for one register are equal.
\<close>

definition uses :: "llvm_function \<Rightarrow> llvm_value \<Rightarrow> llvm_use list" where
  "uses f v =
     concat (map (\<lambda>user. map (\<lambda>_. Use v user) (filter (\<lambda>w. w = v) (operands (body f ! user))))
                 [0..<length (body f)])"

definition opcodeOf :: "llvm_function \<Rightarrow> nat \<Rightarrow> llvm_opcode" where
  "opcodeOf f i = opcode (body f ! i)"

text \<open>
  Lines 105 to 113: the multimap \<open>geps\<close>, as the list of its (register, GEP) pairs.
  Every use of the register file argument whose user is a \<open>getelementptr\<close> that the
  target maps to a register is inserted under that register.
\<close>

definition registerGEPs :: "'r TargetInfo \<Rightarrow> llvm_function \<Rightarrow> ('r \<times> nat) list" where
  "registerGEPs targetInfo f =
     fold (\<lambda>use geps.
             let gep = use_getUser use in
             if opcodeOf f gep = GetElementPtr
             then (case registerInfo targetInfo (body f ! gep) of
                     Some regName \<Rightarrow> geps @ [(regName, gep)]
                   | None \<Rightarrow> geps)
             else geps)
          (uses f (Argument 0)) []"

definition equal_range :: "('r \<times> nat) list \<Rightarrow> 'r \<Rightarrow> nat list" where
  "equal_range geps reg = map snd (filter (\<lambda>entry. fst entry = reg) geps)"

text \<open>
  Lines 116 to 137, the first pass: for each parameter register, in the order of the
  table, the GEPs found under its largest overlapping register are visited, and every use
  of one of them by a load whose defining memory access is the live-on-entry definition
  appends one entry.
\<close>

definition registerParameters ::
  "'r TargetInfo \<Rightarrow> MemorySSA \<Rightarrow> llvm_function \<Rightarrow> ('r \<times> nat) list
    \<Rightarrow> 'r ValueInformation list \<Rightarrow> 'r ValueInformation list" where
  "registerParameters targetInfo mssa f geps =
     fold (\<lambda>name.
             let smallReg = registerNamed targetInfo name;
                 regInfo = largestOverlappingRegister targetInfo smallReg
             in fold (\<lambda>gep.
                        fold (\<lambda>use ps.
                                let load = use_getUser use in
                                if opcodeOf f load = Load
                                   \<and> isLiveOnEntryDef (getDefiningAccess mssa load)
                                then ps @ [IntegerRegister regInfo]
                                else ps)
                             (uses f (Instruction gep)))
                     (equal_range geps regInfo))
          parameterRegisters"

text \<open>
  \<open>match(v, m_Add(m_Value(), m_ConstantInt(offset)))\<close>: the value is an \<open>add\<close>
  whose second operand is an integer constant, which is bound to \<open>offset\<close>.
\<close>

definition match_Add_ConstantInt :: "llvm_function \<Rightarrow> llvm_value \<Rightarrow> nat option" where
  "match_Add_ConstantInt f v =
     (case v of
        Instruction i \<Rightarrow>
          if i < length (body f) \<and> opcodeOf f i = Add
          then (case operands (body f ! i) of
                  [_, ConstantInt offset] \<Rightarrow> Some offset
                | _ \<Rightarrow> None)
          else None
      | _ \<Rightarrow> None)"

text \<open>\<open>ConstantInt::getLimitedValue()\<close>: the value, saturated to 64 bits.\<close>

definition getLimitedValue :: "nat \<Rightarrow> 64 word" where
  "getLimitedValue c = (if c < 2 ^ 64 then of_nat c else - 1)"

text \<open>
  Lines 139 to 166, the second pass: for every load through a GEP of the stack pointer,
  every use of the load is matched. The matcher is applied to \<open>use.get()\<close>, the used
  value of the use, where the other loops look at \<open>use.getUser()\<close>. The offset is
  compared as a signed 64-bit integer.
\<close>

definition stackParameters ::
  "'r TargetInfo \<Rightarrow> llvm_function \<Rightarrow> ('r \<times> nat) list
    \<Rightarrow> 'r ValueInformation list \<Rightarrow> 'r ValueInformation list" where
  "stackParameters targetInfo f geps =
     fold (\<lambda>gep.
             fold (\<lambda>use.
                     let load = use_getUser use in
                     if opcodeOf f load = Load
                     then fold (\<lambda>use' ps.
                                  case match_Add_ConstantInt f (use_get use') of
                                    Some offset \<Rightarrow>
                                      let intOffset = getLimitedValue offset in
                                      if 8 <s intOffset then ps @ [Stack intOffset] else ps
                                  | None \<Rightarrow> ps)
                               (uses f (Instruction load))
                     else id)
                  (uses f (Instruction gep)))
          (equal_range geps (getStackPointer targetInfo))"

text \<open>
  Lines 168 to 186, the third pass: \<open>usedReturns\<close> gets one entry for every use, by
  a store, of a GEP found under a return register, in the order of the table.
\<close>

definition usedReturns :: "'r TargetInfo \<Rightarrow> llvm_function \<Rightarrow> ('r \<times> nat) list \<Rightarrow> 'r list" where
  "usedReturns targetInfo f geps =
     fold (\<lambda>name.
             let regInfo = registerNamed targetInfo name
             in fold (\<lambda>gep.
                        fold (\<lambda>use used.
                                if opcodeOf f (use_getUser use) = Store
                                then used @ [regInfo]
                                else used)
                             (uses f (Instruction gep)))
                     (equal_range geps regInfo))
          returnRegisters []"

text \<open>
  Lines 100 to 103, the two assertions on the shape of the function: one argument, a
  pointer to the structure named \<open>struct.x86_regs\<close>. \<open>getStructName\<close> itself
  asserts that the pointee is a structure.
\<close>

definition hasRegisterFileArgument :: "llvm_function \<Rightarrow> bool" where
  "hasRegisterFileArgument f =
     (case arg_types f of
        [PointerTy (StructTy name)] \<Rightarrow> name = ''struct.x86_regs''
      | _ \<Rightarrow> False)"

text \<open>
  \<open>analyzeFunction\<close> appends to the \<open>callInfo\<close> it is given by reference; a failed
  assertion aborts. The return values (lines 188 to 192) are the registers that
  \<open>ipaFindUsedReturns\<close> gives back for the candidates, in its order. That function
  (cc_common.h) is not part of these sources: the interprocedural query for the analysed
  function is a parameter, a function from the candidates to the registers it answers.
\<close>

definition analyzeFunction ::
  "'r TargetInfo \<Rightarrow> MemorySSA \<Rightarrow> ('r list \<Rightarrow> 'r list) \<Rightarrow> 'r CallInformation
    \<Rightarrow> llvm_function \<Rightarrow> error + 'r CallInformation" where
  "analyzeFunction targetInfo mssa ipaFindUsedReturns callInfo f =
     (if length (arg_types f) \<noteq> 1 then Inl AssertionFailure
      else if \<not> hasRegisterFileArgument f then Inl AssertionFailure
      else
        let geps = registerGEPs targetInfo f;
            ps = registerParameters targetInfo mssa f geps (parameters callInfo);
            ps' = stackParameters targetInfo f geps ps;
            used = usedReturns targetInfo f geps;
            rets = fold (\<lambda>reg rs. rs @ [IntegerRegister reg])
                        (ipaFindUsedReturns used) (returnValues callInfo)
        in Inr (callInfo\<lparr>parameters := ps', returnValues := rets\<rparr>))"

subsection \<open>A target for the examples\<close>

text \<open>
  Modelled from the spec: the x86 register description (\<open>x86TargetInfo\<close>, declared in
  x86_register_map.h) is not part of these sources. The spec's register model gives
  register identity, the overlap of a sub-register with its 64-bit parent, the pointer
  width and the stack pointer. Here a register is identified by its name; the
  register file has one 64-bit field per register, addressed by
  \<open>getelementptr regs, 0, k\<close>, and \<open>getelementptr regs, 0, k, 0\<close> addresses the low
  32 bits of field \<open>k\<close>.
\<close>

definition x86_fields64 :: "string list" where
  "x86_fields64 = [''rax'', ''rbx'', ''rcx'', ''rdx'', ''rsi'', ''rdi'', ''rbp'', ''rsp'',
                   ''r8'', ''r9'']"

definition x86_fields32 :: "string list" where
  "x86_fields32 = [''eax'', ''ebx'', ''ecx'', ''edx'', ''esi'', ''edi'', ''ebp'', ''esp'',
                   ''r8d'', ''r9d'']"

definition x86_largest :: "string \<Rightarrow> string" where
  "x86_largest r = (case map_of (zip x86_fields32 x86_fields64) r of Some p \<Rightarrow> p | None \<Rightarrow> r)"

definition x86_registerInfo :: "llvm_instruction \<Rightarrow> string option" where
  "x86_registerInfo gep =
     (case operands gep of
        [Argument 0, ConstantInt 0, ConstantInt k] \<Rightarrow>
          (if k < length x86_fields64 then Some (x86_fields64 ! k) else None)
      | [Argument 0, ConstantInt 0, ConstantInt k, ConstantInt 0] \<Rightarrow>
          (if k < length x86_fields32 then Some (x86_fields32 ! k) else None)
      | _ \<Rightarrow> None)"

text \<open>
  Modelled from the spec: the target of the examples, with 64-bit pointers, \<open>rsp\<close> as
  the stack pointer and every access path keyed by the register it addresses.
\<close>

definition x86TargetInfo :: "string TargetInfo" where
  "x86TargetInfo =
     \<lparr>getPointerSize = 64,
      registerNamed = (\<lambda>name. name),
      largestOverlappingRegister = x86_largest,
      getStackPointer = ''rsp'',
      registerInfo = x86_registerInfo\<rparr>"

definition emptyCallInformation :: "'r CallInformation" where
  "emptyCallInformation = \<lparr>parameters = [], returnValues = []\<rparr>"

text \<open>
  Modelled from the spec: the same register description, with the access paths grouped
  as the spec words the first pass of the analysis: an access to a 32-bit sub-register is
  attributed to its 64-bit parent. \<open>x86TargetInfo\<close> keys an access path by the very
  register it addresses, \<open>x86TargetInfoGrouped\<close> by the largest register that
  overlaps it.
\<close>

definition x86TargetInfoGrouped :: "string TargetInfo" where
  "x86TargetInfoGrouped =
     x86TargetInfo\<lparr>registerInfo := (\<lambda>gep. map_option x86_largest (x86_registerInfo gep))\<rparr>"

subsection \<open>Notions used to state the properties\<close>

text \<open>
  The number of registers a type takes: an integer of \<open>b\<close> bits takes the least
  \<open>k\<close> with \<open>b \<le> 64 * k\<close>, a pointer as an integer of the pointer size, any other
  type none.
\<close>

definition registersFor :: "'r TargetInfo \<Rightarrow> llvm_type \<Rightarrow> nat" where
  "registersFor targetInfo ty =
     (case ty of
        IntegerTy b \<Rightarrow> (b + 63) div 64
      | PointerTy _ \<Rightarrow> (getPointerSize targetInfo + 63) div 64
      | _ \<Rightarrow> 0)"

definition representable :: "llvm_type \<Rightarrow> bool" where
  "representable ty =
     (case ty of IntegerTy _ \<Rightarrow> True | PointerTy _ \<Rightarrow> True | VoidTy \<Rightarrow> True | _ \<Rightarrow> False)"

definition registerEntries :: "'r TargetInfo \<Rightarrow> string list \<Rightarrow> 'r ValueInformation list" where
  "registerEntries targetInfo names =
     map (\<lambda>name. IntegerRegister (registerNamed targetInfo name)) names"

text \<open>
  A signature exhausts a cursor when its return type needs more registers than the
  return table has, or when the return type is classified and the parameters up to some
  position, all of them integers, pointers or void, together need more registers than the
  parameter table has. The types after that position may be anything.
\<close>

definition cursorExhausted :: "'r TargetInfo \<Rightarrow> llvm_FunctionType \<Rightarrow> bool" where
  "cursorExhausted targetInfo ty =
     (length returnRegisters < registersFor targetInfo (getReturnType ty)
      \<or> (representable (getReturnType ty)
          \<and> (\<exists>n \<in> set [0..<Suc (length (params ty))].
                (\<forall>t \<in> set (take n (params ty)). representable t)
                \<and> length parameterRegisters
                    < sum_list (map (registersFor targetInfo) (take n (params ty))))))"

text \<open>The register under which the first pass looks a parameter register up.\<close>

definition parameterRegister :: "'r TargetInfo \<Rightarrow> string \<Rightarrow> 'r" where
  "parameterRegister targetInfo name =
     largestOverlappingRegister targetInfo (registerNamed targetInfo name)"

definition addressesRegister :: "'r TargetInfo \<Rightarrow> llvm_function \<Rightarrow> 'r \<Rightarrow> nat \<Rightarrow> bool" where
  "addressesRegister targetInfo f reg gep =
     (opcodeOf f gep = GetElementPtr \<and> registerInfo targetInfo (body f ! gep) = Some reg)"

definition readsEntryState :: "MemorySSA \<Rightarrow> llvm_function \<Rightarrow> llvm_use \<Rightarrow> bool" where
  "readsEntryState mssa f use =
     (opcodeOf f (use_getUser use) = Load
      \<and> isLiveOnEntryDef (getDefiningAccess mssa (use_getUser use)))"

text \<open>
  The reads of a register that see the entry state, as pairs (GEP, load): one for
  every use of the register file by a GEP that the target keys to the register, and
  every use of that GEP by a load whose defining access is live on entry.
\<close>

definition entryLoads ::
  "'r TargetInfo \<Rightarrow> MemorySSA \<Rightarrow> llvm_function \<Rightarrow> 'r \<Rightarrow> (nat \<times> nat) list" where
  "entryLoads targetInfo mssa f reg =
     concat (map (\<lambda>gepUse.
                    map (\<lambda>loadUse. (use_getUser gepUse, use_getUser loadUse))
                        (filter (readsEntryState mssa f)
                                (uses f (Instruction (use_getUser gepUse)))))
                 (filter (\<lambda>gepUse. addressesRegister targetInfo f reg (use_getUser gepUse))
                         (uses f (Argument 0))))"


text \<open>
  The same two notions on the instructions themselves: some load of the function goes
  through a GEP off the register file that the target keys to the register, and reads
  the entry state; some store uses such a GEP, as the address it stores to or as the
  value it stores.
\<close>

definition readAtEntry :: "'r TargetInfo \<Rightarrow> MemorySSA \<Rightarrow> llvm_function \<Rightarrow> 'r \<Rightarrow> bool" where
  "readAtEntry targetInfo mssa f reg =
     (\<exists>gep \<in> set [0..<length (body f)]. \<exists>load \<in> set [0..<length (body f)].
        opcode (body f ! gep) = GetElementPtr
        \<and> Argument 0 \<in> set (operands (body f ! gep))
        \<and> registerInfo targetInfo (body f ! gep) = Some reg
        \<and> opcode (body f ! load) = Load
        \<and> Instruction gep \<in> set (operands (body f ! load))
        \<and> getDefiningAccess mssa load = LiveOnEntryDef)"

definition usedByStore :: "'r TargetInfo \<Rightarrow> llvm_function \<Rightarrow> 'r \<Rightarrow> bool" where
  "usedByStore targetInfo f reg =
     (\<exists>gep \<in> set [0..<length (body f)]. \<exists>store \<in> set [0..<length (body f)].
        opcode (body f ! gep) = GetElementPtr
        \<and> Argument 0 \<in> set (operands (body f ! gep))
        \<and> registerInfo targetInfo (body f ! gep) = Some reg
        \<and> opcode (body f ! store) = Store
        \<and> Instruction gep \<in> set (operands (body f ! store)))"


text \<open>
  The stack pass as the spec words it: the offsets are those of the additions of a
  constant to the loaded stack pointer, that is, of the users of the load. It differs from
  \<open>stackParameters\<close> in one place: the matcher is applied to \<open>use.getUser()\<close>.
\<close>

definition stackParameters_spec ::
  "'r TargetInfo \<Rightarrow> llvm_function \<Rightarrow> ('r \<times> nat) list
    \<Rightarrow> 'r ValueInformation list \<Rightarrow> 'r ValueInformation list" where
  "stackParameters_spec targetInfo f geps =
     fold (\<lambda>gep.
             fold (\<lambda>use.
                     let load = use_getUser use in
                     if opcodeOf f load = Load
                     then fold (\<lambda>use' ps.
                                  case match_Add_ConstantInt f (Instruction (use_getUser use')) of
                                    Some offset \<Rightarrow>
                                      let intOffset = getLimitedValue offset in
                                      if 8 <s intOffset then ps @ [Stack intOffset] else ps
                                  | None \<Rightarrow> ps)
                               (uses f (Instruction load))
                     else id)
                  (uses f (Instruction gep)))
          (equal_range geps (getStackPointer targetInfo))"

subsection \<open>Example functions and signatures\<close>

definition registerFile :: llvm_type where
  "registerFile = PointerTy (StructTy ''struct.x86_regs'')"

text \<open>A memory SSA in which every load reads the entry state.\<close>

definition entryMemory :: MemorySSA where
  "entryMemory = \<lparr>getDefiningAccess = (\<lambda>load. LiveOnEntryDef)\<rparr>"

definition fullRegister :: "nat \<Rightarrow> llvm_instruction" where
  "fullRegister k =
     \<lparr>opcode = GetElementPtr, operands = [Argument 0, ConstantInt 0, ConstantInt k]\<rparr>"

definition lowHalf :: "nat \<Rightarrow> llvm_instruction" where
  "lowHalf k =
     \<lparr>opcode = GetElementPtr,
      operands = [Argument 0, ConstantInt 0, ConstantInt k, ConstantInt 0]\<rparr>"

text \<open>Reads \<open>rdx\<close>, then \<open>rdi\<close>; never \<open>rsi\<close>.\<close>

definition readsRdxThenRdi :: llvm_function where
  "readsRdxThenRdi =
     \<lparr>arg_types = [registerFile],
      body = [fullRegister 3,
              \<lparr>opcode = Load, operands = [Instruction 0]\<rparr>,
              fullRegister 5,
              \<lparr>opcode = Load, operands = [Instruction 2]\<rparr>]\<rparr>"

text \<open>Reads \<open>edi\<close> and \<open>rdi\<close>, writing neither.\<close>

definition readsEdiAndRdi :: llvm_function where
  "readsEdiAndRdi =
     \<lparr>arg_types = [registerFile],
      body = [lowHalf 5,
              \<lparr>opcode = Load, operands = [Instruction 0]\<rparr>,
              fullRegister 5,
              \<lparr>opcode = Load, operands = [Instruction 2]\<rparr>]\<rparr>"

text \<open>Reads \<open>edi\<close> once and \<open>rdi\<close> in two places.\<close>

definition readsEdiAndRdiTwice :: llvm_function where
  "readsEdiAndRdiTwice =
     \<lparr>arg_types = [registerFile],
      body = [lowHalf 5,
              \<lparr>opcode = Load, operands = [Instruction 0]\<rparr>,
              fullRegister 5,
              \<lparr>opcode = Load, operands = [Instruction 2]\<rparr>,
              \<lparr>opcode = Load, operands = [Instruction 2]\<rparr>]\<rparr>"

text \<open>
  Loads \<open>rsp\<close>, adds 16 to it and loads from that address (through a cast): a read
  of the stack at offset 16 from the entry stack pointer.
\<close>

definition readsStack16 :: llvm_function where
  "readsStack16 =
     \<lparr>arg_types = [registerFile],
      body = [fullRegister 7,
              \<lparr>opcode = Load, operands = [Instruction 0]\<rparr>,
              \<lparr>opcode = Add, operands = [Instruction 1, ConstantInt 16]\<rparr>,
              \<lparr>opcode = OtherOpcode, operands = [Instruction 2]\<rparr>,
              \<lparr>opcode = Load, operands = [Instruction 3]\<rparr>]\<rparr>"



definition nineIntegers :: llvm_FunctionType where
  "nineIntegers =
     \<lparr>getReturnType = VoidTy,
      params = [IntegerTy 64, IntegerTy 64, IntegerTy 64, IntegerTy 64, IntegerTy 64,
                IntegerTy 64, IntegerTy 64, IntegerTy 64, IntegerTy 64]\<rparr>"

definition wideReturn :: llvm_FunctionType where
  "wideReturn = \<lparr>getReturnType = IntegerTy 192, params = [IntegerTy 32]\<rparr>"

definition sevenIntegersAndDouble :: llvm_FunctionType where
  "sevenIntegersAndDouble =
     \<lparr>getReturnType = IntegerTy 32,
      params = [IntegerTy 64, IntegerTy 64, IntegerTy 64, IntegerTy 64, IntegerTy 64,
                IntegerTy 64, IntegerTy 64, DoubleTy]\<rparr>"

section \<open>Properties\<close>

subsection \<open>Rounding up to whole registers\<close>

lemma ceil64_step: "b \<noteq> 0 \<Longrightarrow> (b + 63) div 64 = Suc ((b - min b 64 + 63) div 64)" for b :: nat
proof (cases "b < 64")
  case True
  assume "b \<noteq> 0"
  with True have "(b + 63) div 64 = 1" by (simp add: div_eq_dividend_iff Euclidean_Rings.div_nat_eqI)
  with True show ?thesis by (simp add: min_def)
next
  case False
  then have "b + 63 = (b - 64 + 63) + 64" by simp
  then have "(b + 63) div 64 = Suc ((b - 64 + 63) div 64)"
    by (simp only: div_add_self2)
  with False show ?thesis by (simp add: min_def)
qed

lemma ceil64_le: "((b + 63) div 64 \<le> n) = (b \<le> 64 * n)" for b n :: nat
proof -
  have "((b + 63) div 64 < Suc n) = (b + 63 < Suc n * 64)"
    by (rule div_less_iff_less_mult) simp
  then show ?thesis by auto
qed

lemma ceil64_least: "b \<le> 64 * ((b + 63) div 64) \<and> 64 * ((b + 63) div 64) < b + 64" for b :: nat
proof -
  have "b + 63 = 64 * ((b + 63) div 64) + (b + 63) mod 64"
    by simp
  moreover have "(b + 63) mod 64 < 64"
    by simp
  ultimately show ?thesis
    by linarith
qed


subsection \<open>The type classification\<close>

lemma addEntriesLoop_eq:
  "addEntriesLoop ti into regs b =
     (into @ registerEntries ti (take ((b + 63) div 64) regs),
      drop ((b + 63) div 64) regs,
      b - 64 * length regs)"
proof (induction regs arbitrary: into b)
  case Nil
  then show ?case by (simp add: registerEntries_def)
next
  case (Cons r regs)
  show ?case
  proof (cases "b = 0")
    case True
    then show ?thesis by (simp add: registerEntries_def)
  next
    case False
    have "b - min b 64 - 64 * length regs = b - 64 * length (r # regs)"
      by (simp add: min_def)
    with False Cons.IH [of "into @ [IntegerRegister (registerNamed ti r)]" "b - min b 64"]
    show ?thesis
      by (simp add: ceil64_step [OF False] registerEntries_def)
  qed
qed

lemma addEntriesForType_eq:
  "addEntriesForType ti into regs ty =
     (representable ty \<and> registersFor ti ty \<le> length regs,
      into @ registerEntries ti (take (registersFor ti ty) regs),
      drop (registersFor ti ty) regs)"
  by (cases ty)
     (simp_all add: addEntriesForType_def addEntriesLoop_eq representable_def registersFor_def
        registerEntries_def ceil64_le Let_def)

lemma addEntriesForParams_success:
  "addEntriesForParams ti into regs ts = (True, into', regs') \<Longrightarrow>
     (\<forall>t \<in> set ts. representable t)
     \<and> sum_list (map (registersFor ti) ts) \<le> length regs
     \<and> into' = into @ registerEntries ti (take (sum_list (map (registersFor ti) ts)) regs)
     \<and> regs' = drop (sum_list (map (registersFor ti) ts)) regs"
proof (induction ts arbitrary: into regs)
  case Nil
  then show ?case by (simp add: registerEntries_def)
next
  case (Cons t ts)
  let ?n = "registersFor ti t"
  from Cons.prems have ok: "representable t" "?n \<le> length regs"
    and rest: "addEntriesForParams ti (into @ registerEntries ti (take ?n regs)) (drop ?n regs) ts
                 = (True, into', regs')"
    by (auto simp: addEntriesForType_eq split: if_splits)
  from Cons.IH [OF rest] ok show ?case
    by (auto simp: registerEntries_def take_add add.commute simp flip: map_append)
qed

lemma addEntriesForParams_exhausted:
  "\<forall>t \<in> set pre. representable t \<Longrightarrow> length regs < sum_list (map (registersFor ti) pre) \<Longrightarrow>
     addEntriesForParams ti into regs (pre @ post) = (False, into @ registerEntries ti regs, [])"
proof (induction pre arbitrary: into regs)
  case Nil
  then show ?case by simp
next
  case (Cons t pre)
  let ?n = "registersFor ti t"
  show ?case
  proof (cases "?n \<le> length regs")
    case True
    with Cons.prems have "length (drop ?n regs) < sum_list (map (registersFor ti) pre)"
      by simp
    from Cons.IH [OF _ this, of "into @ registerEntries ti (take ?n regs)"] Cons.prems True
    show ?thesis
      by (simp add: addEntriesForType_eq registerEntries_def flip: map_append)
  next
    case False
    with Cons.prems show ?thesis
      by (simp add: addEntriesForType_eq)
  qed
qed

lemma analyzeFunctionType_success:
  assumes "analyzeFunctionType ti fillOut ty = (True, out)"
  shows "representable (getReturnType ty) \<and> registersFor ti (getReturnType ty) \<le> length returnRegisters
     \<and> (\<forall>t \<in> set (params ty). representable t)
     \<and> sum_list (map (registersFor ti) (params ty)) \<le> length parameterRegisters
     \<and> returnValues out = returnValues fillOut
           @ registerEntries ti (take (registersFor ti (getReturnType ty)) returnRegisters)
     \<and> parameters out = parameters fillOut
           @ registerEntries ti (take (sum_list (map (registersFor ti) (params ty))) parameterRegisters)"
proof -
  from assms have ret: "representable (getReturnType ty)"
      "registersFor ti (getReturnType ty) \<le> length returnRegisters"
    by (auto simp: analyzeFunctionType_def addEntriesForType_eq split: if_splits prod.splits)
  obtain ok ps regs where p: "addEntriesForParams ti (parameters fillOut) parameterRegisters (params ty) = (ok, ps, regs)"
    by (cases "addEntriesForParams ti (parameters fillOut) parameterRegisters (params ty)") auto
  with assms ret have ok: "ok = True"
    and out: "out = fillOut\<lparr>returnValues := returnValues fillOut
           @ registerEntries ti (take (registersFor ti (getReturnType ty)) returnRegisters), parameters := ps\<rparr>"
    by (auto simp: analyzeFunctionType_def addEntriesForType_eq)
  from addEntriesForParams_success [OF p [unfolded ok]] ret out show ?thesis
    by simp
qed

lemma x86_entries: "registerEntries x86TargetInfo names = map IntegerRegister names"
  by (simp add: registerEntries_def x86TargetInfo_def)


subsection \<open>Loops that append\<close>

lemma fold_append_concat:
  "fold (\<lambda>x acc. acc @ h x) xs acc = acc @ concat (map h xs)"
  by (induction xs arbitrary: acc) simp_all

lemma fold_append_replicate:
  "fold (\<lambda>x acc. acc @ replicate (k x) e) xs acc = acc @ replicate (sum_list (map k xs)) e"
  by (induction xs arbitrary: acc) (simp_all add: replicate_add)

lemma fold_emplace_if:
  "fold (\<lambda>x acc. if c x then acc @ [e] else acc) xs acc = acc @ replicate (length (filter c xs)) e"
  by (induction xs arbitrary: acc) (simp_all add: replicate_append_same)

lemma set_concat_replicate:
  "set (concat (map (\<lambda>x. replicate (k x) (e x)) xs)) = {e x | x. x \<in> set xs \<and> 0 < k x}"
  by (induction xs) auto

lemma count_list_replicate: "count_list (replicate n x) y = (if x = y then n else 0)"
  by (induction n) auto

lemma count_list_concat_replicate:
  "count_list (concat (map (\<lambda>x. replicate (k (r x)) (e (r x))) xs)) (e y)
     = count_list (map r xs) y * k y" if "inj e"
  using that by (induction xs) (auto simp: count_list_replicate inj_eq)


subsection \<open>Use lists and the multimap of register GEPs\<close>

lemma set_uses:
  "set (uses f v) = {Use v user | user. user < length (body f) \<and> v \<in> set (operands (body f ! user))}"
  by (auto simp: uses_def)

lemma use_get_uses: "u \<in> set (uses f v) \<Longrightarrow> use_get u = v"
  by (auto simp: set_uses)

lemma Bex_uses:
  "(\<exists>use \<in> set (uses f v). P use)
     = (\<exists>user \<in> set [0..<length (body f)]. v \<in> set (operands (body f ! user)) \<and> P (Use v user))"
  by (force simp: set_uses)

lemma registerGEPs_eq:
  "registerGEPs ti f =
     concat (map (\<lambda>use. if opcodeOf f (use_getUser use) = GetElementPtr
                         then (case registerInfo ti (body f ! use_getUser use) of
                                 Some regName \<Rightarrow> [(regName, use_getUser use)]
                               | None \<Rightarrow> [])
                         else [])
                 (uses f (Argument 0)))"
proof -
  have step: "(\<lambda>use geps.
             let gep = use_getUser use in
             if opcodeOf f gep = GetElementPtr
             then (case registerInfo ti (body f ! gep) of
                     Some regName \<Rightarrow> geps @ [(regName, gep)]
                   | None \<Rightarrow> geps)
             else geps)
     = (\<lambda>use geps. geps @ (if opcodeOf f (use_getUser use) = GetElementPtr
                         then (case registerInfo ti (body f ! use_getUser use) of
                                 Some regName \<Rightarrow> [(regName, use_getUser use)]
                               | None \<Rightarrow> [])
                         else []))"
    by (auto simp: fun_eq_iff Let_def split: option.splits)
  show ?thesis
    unfolding registerGEPs_def step fold_append_concat by simp
qed

lemma entry_Some:
  "ri = Some r' \<Longrightarrow>
     (if c then (case ri of Some r \<Rightarrow> [(r, y)] | None \<Rightarrow> []) else []) = (if c then [(r', y)] else [])"
  by simp

lemma entry_None:
  "ri = None \<Longrightarrow> (if c then (case ri of Some r \<Rightarrow> [(r, y)] | None \<Rightarrow> []) else []) = []"
  by simp

lemma equal_range_concat:
  "map snd (filter (\<lambda>entry. fst entry = reg)
      (concat (map (\<lambda>x. if P x then (case ri x of Some r \<Rightarrow> [(r, g x)] | None \<Rightarrow> []) else []) xs)))
   = map g (filter (\<lambda>x. P x \<and> ri x = Some reg) xs)"
proof (induction xs)
  case Nil
  show ?case by simp
next
  case (Cons a xs)
  show ?case
  proof (cases "ri a")
    case None
    with Cons.IH show ?thesis by (simp add: entry_None)
  next
    case (Some r')
    with Cons.IH show ?thesis by (simp add: entry_Some)
  qed
qed

lemma equal_range_registerGEPs:
  "equal_range (registerGEPs ti f) reg =
     map use_getUser (filter (\<lambda>use. addressesRegister ti f reg (use_getUser use)) (uses f (Argument 0)))"
  using equal_range_concat
        [where P = "\<lambda>use. opcodeOf f (use_getUser use) = GetElementPtr"
           and ri = "\<lambda>use. registerInfo ti (body f ! use_getUser use)"
           and g = use_getUser and reg = reg and xs = "uses f (Argument 0)"]
  by (simp add: registerGEPs_eq equal_range_def addressesRegister_def)


subsection \<open>The three passes of analyzeFunction\<close>

lemma length_entryLoads:
  "length (entryLoads ti mssa f reg) =
     sum_list (map (\<lambda>gep. length (filter (readsEntryState mssa f) (uses f (Instruction gep))))
                   (equal_range (registerGEPs ti f) reg))"
  by (simp add: entryLoads_def equal_range_registerGEPs length_concat comp_def)

lemma registerParameters_eq:
  "registerParameters ti mssa f (registerGEPs ti f) ps =
     ps @ concat (map (\<lambda>name. replicate (length (entryLoads ti mssa f (parameterRegister ti name)))
                                  (IntegerRegister (parameterRegister ti name)))
                      parameterRegisters)"
proof -
  have inner: "fold (\<lambda>use ps.
                      if opcodeOf f (use_getUser use) = Load
                         \<and> isLiveOnEntryDef (getDefiningAccess mssa (use_getUser use))
                      then ps @ [IntegerRegister reg] else ps) us
       = (\<lambda>ps. ps @ replicate (length (filter (readsEntryState mssa f) us)) (IntegerRegister reg))"
    for reg :: 'a and us
    using fold_emplace_if [of "readsEntryState mssa f" "IntegerRegister reg" us]
    by (simp add: fun_eq_iff readsEntryState_def Let_def)
  have middle: "fold (\<lambda>gep.
                      fold (\<lambda>use ps.
                              if opcodeOf f (use_getUser use) = Load
                                 \<and> isLiveOnEntryDef (getDefiningAccess mssa (use_getUser use))
                              then ps @ [IntegerRegister reg] else ps)
                           (uses f (Instruction gep))) gs
       = (\<lambda>ps. ps @ replicate (sum_list (map (\<lambda>gep. length (filter (readsEntryState mssa f)
                                        (uses f (Instruction gep)))) gs)) (IntegerRegister reg))"
    for reg :: 'a and gs
    unfolding inner by (simp add: fun_eq_iff fold_append_replicate)
  show ?thesis
    unfolding registerParameters_def Let_def middle length_entryLoads [symmetric]
      parameterRegister_def [symmetric]
    by (simp add: fold_append_concat)
qed

lemma entryLoads_nonempty:
  "(entryLoads ti mssa f reg \<noteq> []) = readAtEntry ti mssa f reg"
proof -
  have "(entryLoads ti mssa f reg \<noteq> []) =
        (\<exists>gepUse \<in> set (uses f (Argument 0)).
           addressesRegister ti f reg (use_getUser gepUse)
           \<and> (\<exists>loadUse \<in> set (uses f (Instruction (use_getUser gepUse))).
                 opcodeOf f (use_getUser loadUse) = Load
                 \<and> isLiveOnEntryDef (getDefiningAccess mssa (use_getUser loadUse))))"
    by (auto simp: entryLoads_def filter_empty_conv readsEntryState_def)
  also have "\<dots> = readAtEntry ti mssa f reg"
    unfolding Bex_uses readAtEntry_def addressesRegister_def opcodeOf_def isLiveOnEntryDef_def
    by auto
  finally show ?thesis .
qed


text \<open>
  In the stack pass the matcher never succeeds: every use in the use list of a load has
  that load as \<open>get()\<close>, and a load is not an \<open>add\<close>. The pass leaves the
  parameters as they are.
\<close>

lemma match_Add_ConstantInt_load:
  "opcodeOf f load = Load \<Longrightarrow> match_Add_ConstantInt f (Instruction load) = None"
  by (simp add: match_Add_ConstantInt_def)

lemma stackParameters_loads:
  assumes "opcodeOf f load = Load"
  shows "fold (\<lambda>use' ps.
                 case match_Add_ConstantInt f (use_get use') of
                   Some offset \<Rightarrow>
                     let intOffset = getLimitedValue offset in
                     if 8 <s intOffset then ps @ [Stack intOffset] else ps
                 | None \<Rightarrow> ps)
              (uses f (Instruction load)) = id"
  by (rule fold_id) (simp add: use_get_uses match_Add_ConstantInt_load [OF assms] fun_eq_iff)

lemma stackParameters_none: "stackParameters ti f geps ps = ps"
proof -
  have "stackParameters ti f geps = id"
    unfolding stackParameters_def
    by (intro fold_id) (simp add: Let_def stackParameters_loads)
  then show ?thesis by simp
qed

text \<open>
  On the function that reads the stack at offset 16, the pass as the spec words it finds
  the stack parameter, and the pass of the code does not.
\<close>

lemma stackParameters_spec_offset_16:
  "stackParameters_spec x86TargetInfo readsStack16 (registerGEPs x86TargetInfo readsStack16) []
     = [Stack 16]
   \<and> stackParameters x86TargetInfo readsStack16 (registerGEPs x86TargetInfo readsStack16) []
     = []"
proof -
  have g: "equal_range (registerGEPs x86TargetInfo readsStack16) (getStackPointer x86TargetInfo)
             = [0]"
    by code_simp
  have u0: "uses readsStack16 (Instruction 0) = [Use (Instruction 0) 1]"
    by code_simp
  have u1: "uses readsStack16 (Instruction (Suc 0)) = [Use (Instruction 1) 2]"
    by code_simp
  have o: "opcodeOf readsStack16 (Suc 0) = Load"
    by code_simp
  have m: "match_Add_ConstantInt readsStack16 (Instruction 2) = Some 16"
    by code_simp
  have v: "getLimitedValue 16 = 16"
    by (simp add: getLimitedValue_def)
  have w: "(8 :: 64 word) <s 16"
    by (simp add: word_sless_alt)
  show ?thesis
    using w by (simp add: stackParameters_spec_def stackParameters_none g u0 u1 o m v)
qed





lemma analyzeFunction_shape:
  "hasRegisterFileArgument f = (arg_types f = [PointerTy (StructTy ''struct.x86_regs'')])"
proof (cases "arg_types f")
  case Nil
  then show ?thesis by (simp add: hasRegisterFileArgument_def)
next
  case outer: (Cons t ts)
  show ?thesis
  proof (cases ts)
    case Nil
    with outer show ?thesis
      by (auto simp: hasRegisterFileArgument_def split: llvm_type.splits)
  next
    case (Cons t' ts')
    with outer show ?thesis
      by (auto simp: hasRegisterFileArgument_def split: llvm_type.splits)
  qed
qed

lemma analyzeFunction_Inr:
  assumes "analyzeFunction ti mssa ipa callInfo f = Inr ci"
  shows "parameters ci = parameters callInfo
           @ concat (map (\<lambda>name. replicate (length (entryLoads ti mssa f (parameterRegister ti name)))
                                  (IntegerRegister (parameterRegister ti name)))
                      parameterRegisters)"
    and "returnValues ci = returnValues callInfo
           @ map IntegerRegister (ipa (usedReturns ti f (registerGEPs ti f)))"
    and "arg_types f = [PointerTy (StructTy ''struct.x86_regs'')]"
proof -
  from assms have shape: "hasRegisterFileArgument f"
    by (simp add: analyzeFunction_def split: if_splits)
  then show "arg_types f = [PointerTy (StructTy ''struct.x86_regs'')]"
    by (simp add: analyzeFunction_shape)
  have emit: "fold (\<lambda>reg rs. rs @ [IntegerRegister reg]) regs rs = rs @ map IntegerRegister regs"
    for regs :: "'a list" and rs
    by (induction regs arbitrary: rs) simp_all
  from assms shape
  have ci: "ci = callInfo\<lparr>parameters := stackParameters ti f (registerGEPs ti f)
                    (registerParameters ti mssa f (registerGEPs ti f) (parameters callInfo)),
               returnValues := returnValues callInfo
                 @ map IntegerRegister (ipa (usedReturns ti f (registerGEPs ti f)))\<rparr>"
    by (simp add: analyzeFunction_def Let_def emit analyzeFunction_shape split: if_splits)
  show "parameters ci = parameters callInfo
           @ concat (map (\<lambda>name. replicate (length (entryLoads ti mssa f (parameterRegister ti name)))
                                  (IntegerRegister (parameterRegister ti name)))
                      parameterRegisters)"
    by (simp add: ci stackParameters_none registerParameters_eq)
  show "returnValues ci = returnValues callInfo
           @ map IntegerRegister (ipa (usedReturns ti f (registerGEPs ti f)))"
    by (simp add: ci)
qed

lemma analyzeFunction_no_stack_parameters:
  assumes "analyzeFunction ti mssa ipa callInfo f = Inr ci"
  shows "(Stack offset \<in> set (parameters ci)) = (Stack offset \<in> set (parameters callInfo))"
  by (auto simp: analyzeFunction_Inr(1) [OF assms])

section \<open>The claims\<close>

subsection \<open>Register parameters\<close>

text \<open>
  C1. When \<open>analyzeFunction\<close> returns, the parameters it appended are one block of
  entries per convention register, in the order of the table \<open>rdi, rsi, rdx, rcx, r8,
  r9\<close> whatever the order of the reads in the function; the block of a register is not
  empty exactly when some load through a GEP keyed to that register reads the entry
  state. So a convention register is among the parameters exactly when it was there
  before or is read at entry.
\<close>

theorem analyzeFunction_register_parameters:
  assumes "analyzeFunction ti mssa ipa callInfo f = Inr ci"
  shows "\<exists>count.
           parameters ci = parameters callInfo
             @ concat (map (\<lambda>name. replicate (count name)
                                      (IntegerRegister (parameterRegister ti name)))
                           parameterRegisters)
           \<and> (\<forall>name \<in> set parameterRegisters.
                 (0 < count name) = readAtEntry ti mssa f (parameterRegister ti name))
           \<and> (\<forall>name \<in> set parameterRegisters.
                 (IntegerRegister (parameterRegister ti name) \<in> set (parameters ci))
                   = (IntegerRegister (parameterRegister ti name) \<in> set (parameters callInfo)
                      \<or> readAtEntry ti mssa f (parameterRegister ti name)))"
proof (intro exI conjI)
  let ?count = "\<lambda>name. length (entryLoads ti mssa f (parameterRegister ti name))"
  show p: "parameters ci = parameters callInfo
             @ concat (map (\<lambda>name. replicate (?count name)
                                      (IntegerRegister (parameterRegister ti name)))
                           parameterRegisters)"
    by (rule analyzeFunction_Inr(1) [OF assms])
  show "\<forall>name \<in> set parameterRegisters.
          (0 < ?count name) = readAtEntry ti mssa f (parameterRegister ti name)"
    by (simp add: entryLoads_nonempty [symmetric])
  show "\<forall>name \<in> set parameterRegisters.
                 (IntegerRegister (parameterRegister ti name) \<in> set (parameters ci))
                   = (IntegerRegister (parameterRegister ti name) \<in> set (parameters callInfo)
                      \<or> readAtEntry ti mssa f (parameterRegister ti name))"
  proof
    fix name assume n: "name \<in> set parameterRegisters"
    have "(IntegerRegister (parameterRegister ti name)
            \<in> set (concat (map (\<lambda>name. replicate (?count name)
                                      (IntegerRegister (parameterRegister ti name)))
                           parameterRegisters)))
          = (0 < ?count name)"
    proof
      assume "IntegerRegister (parameterRegister ti name)
            \<in> set (concat (map (\<lambda>name. replicate (?count name)
                                      (IntegerRegister (parameterRegister ti name)))
                           parameterRegisters))"
      then obtain n' where "parameterRegister ti n' = parameterRegister ti name" "0 < ?count n'"
        unfolding set_concat_replicate by auto
      then show "0 < ?count name" by simp
    next
      assume "0 < ?count name"
      with n show "IntegerRegister (parameterRegister ti name)
            \<in> set (concat (map (\<lambda>name. replicate (?count name)
                                      (IntegerRegister (parameterRegister ti name)))
                           parameterRegisters))"
        unfolding set_concat_replicate by auto
    qed
    then show "(IntegerRegister (parameterRegister ti name) \<in> set (parameters ci))
                   = (IntegerRegister (parameterRegister ti name) \<in> set (parameters callInfo)
                      \<or> readAtEntry ti mssa f (parameterRegister ti name))"
      by (simp add: p entryLoads_nonempty [symmetric])
  qed
qed

text \<open>
  The function that reads \<open>rdx\<close> first and \<open>rdi\<close> second, and never \<open>rsi\<close>, gets
  the parameters \<open>rdi, rdx\<close>.
\<close>

theorem analyzeFunction_register_parameters_witness:
  "analyzeFunction x86TargetInfo entryMemory (\<lambda>returns. returns) emptyCallInformation readsRdxThenRdi
     = Inr \<lparr>parameters = [IntegerRegister ''rdi'', IntegerRegister ''rdx''], returnValues = []\<rparr>
   \<and> readAtEntry x86TargetInfo entryMemory readsRdxThenRdi ''rdi''
   \<and> \<not> readAtEntry x86TargetInfo entryMemory readsRdxThenRdi ''rsi''
   \<and> readAtEntry x86TargetInfo entryMemory readsRdxThenRdi ''rdx''"
proof -
  have v: "analyzeFunction x86TargetInfo entryMemory (\<lambda>returns. returns) emptyCallInformation readsRdxThenRdi
     = Inr \<lparr>parameters = [IntegerRegister ''rdi'', IntegerRegister ''rdx''], returnValues = []\<rparr>"
    by code_simp
  have p: "parameterRegister x86TargetInfo ''rdi'' = ''rdi''"
      "parameterRegister x86TargetInfo ''rsi'' = ''rsi''"
      "parameterRegister x86TargetInfo ''rdx'' = ''rdx''"
    by code_simp+
  from analyzeFunction_register_parameters [OF v] v p show ?thesis
    by (auto simp: parameterRegisters_def emptyCallInformation_def)
qed

text \<open>
  C2, as stated, fails: the entries of a register are not coalesced. With access paths
  keyed by the largest overlapping register, the function that reads \<open>edi\<close> and
  \<open>rdi\<close> gets two \<open>rdi\<close> entries; with access paths keyed by the register they
  address, the function that reads \<open>edi\<close> once and \<open>rdi\<close> in two places gets two
  as well. Both functions read \<open>edi\<close> and \<open>rdi\<close> at entry and never write
  \<open>edi\<close>.
\<close>

theorem analyzeFunction_duplicate_counterexample:
  "analyzeFunction x86TargetInfoGrouped entryMemory (\<lambda>returns. returns) emptyCallInformation readsEdiAndRdi
     = Inr \<lparr>parameters = [IntegerRegister ''rdi'', IntegerRegister ''rdi''], returnValues = []\<rparr>
   \<and> analyzeFunction x86TargetInfo entryMemory (\<lambda>returns. returns) emptyCallInformation readsEdiAndRdiTwice
     = Inr \<lparr>parameters = [IntegerRegister ''rdi'', IntegerRegister ''rdi''], returnValues = []\<rparr>
   \<and> count_list [IntegerRegister ''rdi'', IntegerRegister ''rdi''] (IntegerRegister ''rdi'') \<noteq> 1
   \<and> readAtEntry x86TargetInfo entryMemory readsEdiAndRdi ''edi''
   \<and> readAtEntry x86TargetInfo entryMemory readsEdiAndRdi ''rdi''
   \<and> \<not> usedByStore x86TargetInfo readsEdiAndRdi ''edi''
   \<and> readAtEntry x86TargetInfo entryMemory readsEdiAndRdiTwice ''edi''
   \<and> readAtEntry x86TargetInfo entryMemory readsEdiAndRdiTwice ''rdi''
   \<and> \<not> usedByStore x86TargetInfo readsEdiAndRdiTwice ''edi''"
  by code_simp

text \<open>
  C2, amended. \<open>analyzeFunction\<close> looks up the GEPs that the target keys to the
  largest register overlapping each convention register, and appends one entry of that
  register for every load through them that reads the entry state: the number of entries
  of a register grows by the number of such loads, for each time the register occurs in
  the table.
\<close>

theorem analyzeFunction_register_entries:
  assumes "analyzeFunction ti mssa ipa callInfo f = Inr ci"
  shows "count_list (parameters ci) (IntegerRegister reg)
           = count_list (parameters callInfo) (IntegerRegister reg)
             + count_list (map (parameterRegister ti) parameterRegisters) reg
               * length (entryLoads ti mssa f reg)"
proof -
  have "inj (IntegerRegister :: 'a \<Rightarrow> 'a ValueInformation)"
    by (simp add: inj_def)
  from count_list_concat_replicate [OF this,
      of "\<lambda>r. length (entryLoads ti mssa f r)" "parameterRegister ti" parameterRegisters reg]
  show ?thesis
    by (simp add: analyzeFunction_Inr(1) [OF assms])
qed

theorem analyzeFunction_register_entries_witness:
  "analyzeFunction x86TargetInfoGrouped entryMemory (\<lambda>returns. returns) emptyCallInformation readsEdiAndRdi
     = Inr \<lparr>parameters = [IntegerRegister ''rdi'', IntegerRegister ''rdi''], returnValues = []\<rparr>
   \<and> length (entryLoads x86TargetInfoGrouped entryMemory readsEdiAndRdi ''rdi'') = 2"
proof -
  have v: "analyzeFunction x86TargetInfoGrouped entryMemory (\<lambda>returns. returns) emptyCallInformation readsEdiAndRdi
     = Inr \<lparr>parameters = [IntegerRegister ''rdi'', IntegerRegister ''rdi''], returnValues = []\<rparr>"
    by code_simp
  have c: "count_list (map (parameterRegister x86TargetInfoGrouped) parameterRegisters) ''rdi'' = 1"
    by code_simp
  from analyzeFunction_register_entries [OF v, of "''rdi''"] v c show ?thesis
    by (simp add: emptyCallInformation_def)
qed

subsection \<open>Stack parameters\<close>

text \<open>
  C3. The function that reads the stack at the constant offset 16 from the entry stack
  pointer gets no parameter at all: the stack parameter at offset 16 is missing.
\<close>

theorem analyzeFunction_stack_offset_16:
  "analyzeFunction x86TargetInfo entryMemory (\<lambda>returns. returns) emptyCallInformation readsStack16
     = Inr \<lparr>parameters = [], returnValues = []\<rparr>"
  by code_simp

subsection \<open>Return values\<close>




subsection \<open>Declared signatures\<close>

text \<open>
  C5, as stated, fails in its second half: for nine 64-bit integer parameters
  \<open>analyzeFunctionType\<close> returns false, and the \<open>CallInformation\<close> it was given
  holds the six registers assigned before the cursor ran out.
\<close>

theorem analyzeFunctionType_partial_counterexample:
  "cursorExhausted x86TargetInfo nineIntegers
   \<and> fst (analyzeFunctionType x86TargetInfo emptyCallInformation nineIntegers) = False
   \<and> parameters (snd (analyzeFunctionType x86TargetInfo emptyCallInformation nineIntegers))
       \<noteq> parameters emptyCallInformation"
  by code_simp

text \<open>
  C5, amended. For every signature that exhausts a cursor, \<open>analyzeFunctionType\<close>
  returns false for the whole signature, and the \<open>CallInformation\<close> is not rolled back:
  it keeps exactly the entries appended before the failure. When the return type is too
  wide these are all the return registers, and no parameter is touched. Otherwise they
  are the registers of the return type and all six parameter registers, whatever the
  types after the parameter that ran out of registers are.
\<close>

theorem analyzeFunctionType_exhausted:
  assumes "cursorExhausted ti ty"
  shows "analyzeFunctionType ti fillOut ty =
     (False,
      if length returnRegisters < registersFor ti (getReturnType ty)
      then fillOut\<lparr>returnValues := returnValues fillOut @ registerEntries ti returnRegisters\<rparr>
      else fillOut\<lparr>returnValues := returnValues fillOut
                        @ registerEntries ti
                            (take (registersFor ti (getReturnType ty)) returnRegisters),
                    parameters := parameters fillOut @ registerEntries ti parameterRegisters\<rparr>)"
proof (cases "length returnRegisters < registersFor ti (getReturnType ty)")
  case True
  then show ?thesis
    by (simp add: analyzeFunctionType_def addEntriesForType_eq)
next
  case False
  with assms obtain n where ret: "representable (getReturnType ty)"
    and pre: "\<forall>t \<in> set (take n (params ty)). representable t"
    and over: "length parameterRegisters
                 < sum_list (map (registersFor ti) (take n (params ty)))"
    unfolding cursorExhausted_def by blast
  from addEntriesForParams_exhausted [OF pre over, of "parameters fillOut" "drop n (params ty)"]
  have "addEntriesForParams ti (parameters fillOut) parameterRegisters (params ty)
          = (False, parameters fillOut @ registerEntries ti parameterRegisters, [])"
    by simp
  with False ret show ?thesis
    by (simp add: analyzeFunctionType_def addEntriesForType_eq)
qed

text \<open>
  Nine 64-bit integers leave the six parameter registers; a 192-bit result leaves the
  two return registers; seven 64-bit integers followed by a double leave the register
  of the 32-bit result and the six parameter registers.
\<close>

theorem analyzeFunctionType_exhausted_witness:
  "cursorExhausted x86TargetInfo nineIntegers
   \<and> analyzeFunctionType x86TargetInfo emptyCallInformation nineIntegers
       = (False, \<lparr>parameters = map IntegerRegister [''rdi'', ''rsi'', ''rdx'', ''rcx'', ''r8'', ''r9''],
                  returnValues = []\<rparr>)
   \<and> cursorExhausted x86TargetInfo wideReturn
   \<and> analyzeFunctionType x86TargetInfo emptyCallInformation wideReturn
       = (False, \<lparr>parameters = [],
                  returnValues = [IntegerRegister ''rax'', IntegerRegister ''rdx'']\<rparr>)
   \<and> cursorExhausted x86TargetInfo sevenIntegersAndDouble
   \<and> analyzeFunctionType x86TargetInfo emptyCallInformation sevenIntegersAndDouble
       = (False, \<lparr>parameters = map IntegerRegister [''rdi'', ''rsi'', ''rdx'', ''rcx'', ''r8'', ''r9''],
                  returnValues = [IntegerRegister ''rax'']\<rparr>)"
proof -
  have e: "cursorExhausted x86TargetInfo nineIntegers"
    "cursorExhausted x86TargetInfo wideReturn"
    "cursorExhausted x86TargetInfo sevenIntegersAndDouble"
    by code_simp+
  have r: "registersFor x86TargetInfo (getReturnType nineIntegers) = 0"
    "registersFor x86TargetInfo (getReturnType wideReturn) = 3"
    "registersFor x86TargetInfo (getReturnType sevenIntegersAndDouble) = 1"
    by (simp_all add: nineIntegers_def wideReturn_def sevenIntegersAndDouble_def registersFor_def)
  from analyzeFunctionType_exhausted [OF e(1), of emptyCallInformation]
       analyzeFunctionType_exhausted [OF e(2), of emptyCallInformation]
       analyzeFunctionType_exhausted [OF e(3), of emptyCallInformation]
       e r
  show ?thesis
    by (simp add: x86_entries parameterRegisters_def returnRegisters_def emptyCallInformation_def)
qed

text \<open>
  C6. An integer type of \<open>b\<close> bits that is classified takes exactly \<open>k\<close>
  consecutive registers from the cursor, where \<open>k\<close> is \<open>b / 64\<close> rounded up (the
  least \<open>k\<close> with \<open>b \<le> 64 * k\<close>): \<open>addEntriesForType\<close> appends the next
  \<open>k\<close> registers and leaves the cursor behind them. So in a signature that
  \<open>analyzeFunctionType\<close> accepts, the parameter entries are the registers of the
  parameters before the integer, then the next \<open>k\<close> registers of the table, then those
  of the parameters after it; and an integer return type takes the first \<open>k\<close>
  registers of the return table.
\<close>

theorem analyzeFunctionType_integer_registers:
  "(addEntriesForType ti into regIter (IntegerTy b) = (True, into', regIter') \<longrightarrow>
      into' = into @ registerEntries ti (take ((b + 63) div 64) regIter)
      \<and> regIter' = drop ((b + 63) div 64) regIter
      \<and> (b + 63) div 64 \<le> length regIter)
   \<and> (analyzeFunctionType ti fillOut
         \<lparr>getReturnType = ret, params = pre @ IntegerTy b # post\<rparr> = (True, out) \<longrightarrow>
      parameters out = parameters fillOut
        @ registerEntries ti (take (sum_list (map (registersFor ti) pre)) parameterRegisters)
        @ registerEntries ti (take ((b + 63) div 64)
             (drop (sum_list (map (registersFor ti) pre)) parameterRegisters))
        @ registerEntries ti (take (sum_list (map (registersFor ti) post))
             (drop (sum_list (map (registersFor ti) pre) + (b + 63) div 64)
                   parameterRegisters))
      \<and> sum_list (map (registersFor ti) pre) + (b + 63) div 64 \<le> length parameterRegisters)
   \<and> (analyzeFunctionType ti fillOut \<lparr>getReturnType = IntegerTy b, params = ts\<rparr>
         = (True, out') \<longrightarrow>
      returnValues out' = returnValues fillOut
        @ registerEntries ti (take ((b + 63) div 64) returnRegisters)
      \<and> (b + 63) div 64 \<le> length returnRegisters)
   \<and> b \<le> 64 * ((b + 63) div 64) \<and> 64 * ((b + 63) div 64) < b + 64"
proof (intro conjI impI)
  assume "addEntriesForType ti into regIter (IntegerTy b) = (True, into', regIter')"
  then have *: "into' = into @ registerEntries ti (take ((b + 63) div 64) regIter)
      \<and> regIter' = drop ((b + 63) div 64) regIter
      \<and> (b + 63) div 64 \<le> length regIter"
    by (auto simp: addEntriesForType_eq registersFor_def)
  from * show "into' = into @ registerEntries ti (take ((b + 63) div 64) regIter)" by simp
  from * show "regIter' = drop ((b + 63) div 64) regIter" by simp
  from * show "(b + 63) div 64 \<le> length regIter" by simp
next
  assume a: "analyzeFunctionType ti fillOut
               \<lparr>getReturnType = ret, params = pre @ IntegerTy b # post\<rparr> = (True, out)"
  define n where "n = sum_list (map (registersFor ti) pre)"
  define k where "k = (b + 63) div 64"
  define m where "m = sum_list (map (registersFor ti) post)"
  have split: "take (n + (k + m)) xs = take n xs @ take k (drop n xs) @ take m (drop (n + k) xs)"
    for xs :: "string list"
    by (simp add: take_add drop_drop add.commute)
  from analyzeFunctionType_success [OF a]
  have "parameters out
          = parameters fillOut @ registerEntries ti (take (n + (k + m)) parameterRegisters)"
    and "n + (k + m) \<le> length parameterRegisters"
    by (simp_all add: n_def k_def m_def registersFor_def)
  then have ps: "parameters out = parameters fillOut
           @ registerEntries ti (take n parameterRegisters)
           @ registerEntries ti (take k (drop n parameterRegisters))
           @ registerEntries ti (take m (drop (n + k) parameterRegisters))
         \<and> n + k \<le> length parameterRegisters"
    unfolding split by (simp add: registerEntries_def)
  from ps show "parameters out = parameters fillOut
        @ registerEntries ti (take (sum_list (map (registersFor ti) pre)) parameterRegisters)
        @ registerEntries ti (take ((b + 63) div 64)
             (drop (sum_list (map (registersFor ti) pre)) parameterRegisters))
        @ registerEntries ti (take (sum_list (map (registersFor ti) post))
             (drop (sum_list (map (registersFor ti) pre) + (b + 63) div 64)
                   parameterRegisters))"
    unfolding n_def k_def m_def by simp
  from ps show "sum_list (map (registersFor ti) pre) + (b + 63) div 64
                  \<le> length parameterRegisters"
    unfolding n_def k_def by simp
next
  assume a: "analyzeFunctionType ti fillOut \<lparr>getReturnType = IntegerTy b, params = ts\<rparr>
               = (True, out')"
  from analyzeFunctionType_success [OF a]
  show "returnValues out' = returnValues fillOut
          @ registerEntries ti (take ((b + 63) div 64) returnRegisters)"
    and "(b + 63) div 64 \<le> length returnRegisters"
    by (simp_all add: registersFor_def)
next
  from ceil64_least [of b]
  show "b \<le> 64 * ((b + 63) div 64)" and "64 * ((b + 63) div 64) < b + 64"
    by simp_all
qed

text \<open>
  One 128-bit integer parameter takes \<open>rdi, rsi\<close> (and a 128-bit integer result
  \<open>rax, rdx\<close>); one 65-bit integer parameter takes two registers as well.
\<close>

theorem analyzeFunctionType_integer_registers_witness:
  "addEntriesForType x86TargetInfo [] parameterRegisters (IntegerTy 128)
     = (True, [IntegerRegister ''rdi'', IntegerRegister ''rsi''],
        [''rdx'', ''rcx'', ''r8'', ''r9''])
   \<and> analyzeFunctionType x86TargetInfo emptyCallInformation
       \<lparr>getReturnType = IntegerTy 128, params = [IntegerTy 128]\<rparr>
     = (True, \<lparr>parameters = [IntegerRegister ''rdi'', IntegerRegister ''rsi''],
               returnValues = [IntegerRegister ''rax'', IntegerRegister ''rdx'']\<rparr>)
   \<and> analyzeFunctionType x86TargetInfo emptyCallInformation
       \<lparr>getReturnType = VoidTy, params = [IntegerTy 65]\<rparr>
     = (True, \<lparr>parameters = [IntegerRegister ''rdi'', IntegerRegister ''rsi''],
               returnValues = []\<rparr>)"
proof -
  have c: "addEntriesForType x86TargetInfo [] parameterRegisters (IntegerTy 128)
     = (True, [IntegerRegister ''rdi'', IntegerRegister ''rsi''],
        [''rdx'', ''rcx'', ''r8'', ''r9''])"
    by code_simp
  have v: "analyzeFunctionType x86TargetInfo emptyCallInformation
       \<lparr>getReturnType = IntegerTy 128, params = [] @ IntegerTy 128 # []\<rparr>
     = (True, \<lparr>parameters = [IntegerRegister ''rdi'', IntegerRegister ''rsi''],
               returnValues = [IntegerRegister ''rax'', IntegerRegister ''rdx'']\<rparr>)"
    by code_simp
  have v': "analyzeFunctionType x86TargetInfo emptyCallInformation
       \<lparr>getReturnType = VoidTy, params = [] @ IntegerTy 65 # []\<rparr>
     = (True, \<lparr>parameters = [IntegerRegister ''rdi'', IntegerRegister ''rsi''],
               returnValues = []\<rparr>)"
    by code_simp
  from analyzeFunctionType_integer_registers
         [of x86TargetInfo "[]" parameterRegisters 128
             "[IntegerRegister ''rdi'', IntegerRegister ''rsi'']"
             "[''rdx'', ''rcx'', ''r8'', ''r9'']"
             emptyCallInformation "IntegerTy 128" "[]" "[]"
             "\<lparr>parameters = [IntegerRegister ''rdi'', IntegerRegister ''rsi''],
               returnValues = [IntegerRegister ''rax'', IntegerRegister ''rdx'']\<rparr>"
             "[IntegerTy 128]"
             "\<lparr>parameters = [IntegerRegister ''rdi'', IntegerRegister ''rsi''],
               returnValues = [IntegerRegister ''rax'', IntegerRegister ''rdx'']\<rparr>"]
       c v v'
  show ?thesis
    by simp
qed

text \<open>
  C7. A signature whose return type or one of whose parameter types is neither an
  integer, nor a pointer, nor void is refused: \<open>analyzeFunctionType\<close> returns false.
\<close>

theorem analyzeFunctionType_unrepresentable:
  assumes "t = getReturnType ty \<or> t \<in> set (params ty)"
    and "\<forall>b. t \<noteq> IntegerTy b" and "\<forall>p. t \<noteq> PointerTy p" and "t \<noteq> VoidTy"
  shows "fst (analyzeFunctionType ti fillOut ty) = False"
proof (rule ccontr)
  assume "fst (analyzeFunctionType ti fillOut ty) \<noteq> False"
  then obtain out where "analyzeFunctionType ti fillOut ty = (True, out)"
    by (cases "analyzeFunctionType ti fillOut ty") auto
  from analyzeFunctionType_success [OF this] assms(1) have "representable t"
    by auto
  with assms(2-4) show False
    by (cases t) (simp_all add: representable_def)
qed

theorem analyzeFunctionType_unrepresentable_witness:
  "(DoubleTy = getReturnType \<lparr>getReturnType = IntegerTy 32, params = [IntegerTy 64, DoubleTy]\<rparr>
      \<or> DoubleTy \<in> set (params \<lparr>getReturnType = IntegerTy 32, params = [IntegerTy 64, DoubleTy]\<rparr>))
   \<and> (\<forall>b. DoubleTy \<noteq> IntegerTy b) \<and> (\<forall>p. DoubleTy \<noteq> PointerTy p) \<and> DoubleTy \<noteq> VoidTy
   \<and> fst (analyzeFunctionType x86TargetInfo emptyCallInformation
            \<lparr>getReturnType = IntegerTy 32, params = [IntegerTy 64, DoubleTy]\<rparr>) = False"
  using analyzeFunctionType_unrepresentable
    [of DoubleTy "\<lparr>getReturnType = IntegerTy 32, params = [IntegerTy 64, DoubleTy]\<rparr>"
        x86TargetInfo emptyCallInformation]
  by simp

text \<open>
  C8. For the signature with the void return type and no parameters,
  \<open>analyzeFunctionType\<close> returns true and appends nothing, so that an empty
  \<open>CallInformation\<close> stays empty; the void type leaves the vector and the cursor of
  \<open>addEntriesForType\<close> as they are.
\<close>

theorem analyzeFunctionType_void:
  "analyzeFunctionType ti fillOut \<lparr>getReturnType = VoidTy, params = []\<rparr> = (True, fillOut)
   \<and> analyzeFunctionType ti emptyCallInformation \<lparr>getReturnType = VoidTy, params = []\<rparr>
       = (True, \<lparr>parameters = [], returnValues = []\<rparr>)
   \<and> addEntriesForType ti into regIter VoidTy = (True, into, regIter)"
  by (simp add: analyzeFunctionType_def addEntriesForType_def emptyCallInformation_def)

subsection \<open>The shape of the analysed function\<close>

text \<open>
  C9. \<open>analyzeFunction\<close> returns a result when the function has exactly one argument,
  of the type pointer to \<open>struct.x86_regs\<close>, and fails its assertion for every other
  function. (The assertions are those of a build with assertions enabled.)
\<close>

theorem analyzeFunction_precondition:
  "(arg_types f = [PointerTy (StructTy ''struct.x86_regs'')]
      \<longrightarrow> (\<exists>ci. analyzeFunction ti mssa ipa callInfo f = Inr ci))
   \<and> (arg_types f \<noteq> [PointerTy (StructTy ''struct.x86_regs'')]
      \<longrightarrow> analyzeFunction ti mssa ipa callInfo f = Inl AssertionFailure)"
  by (simp add: analyzeFunction_def analyzeFunction_shape Let_def)

theorem analyzeFunction_precondition_witness:
  "arg_types readsRdxThenRdi = [PointerTy (StructTy ''struct.x86_regs'')]
   \<and> (\<exists>ci. analyzeFunction x86TargetInfo entryMemory (\<lambda>returns. returns) emptyCallInformation readsRdxThenRdi = Inr ci)
   \<and> arg_types (readsRdxThenRdi\<lparr>arg_types := [registerFile, IntegerTy 64]\<rparr>)
       \<noteq> [PointerTy (StructTy ''struct.x86_regs'')]
   \<and> analyzeFunction x86TargetInfo entryMemory (\<lambda>returns. returns) emptyCallInformation
        (readsRdxThenRdi\<lparr>arg_types := [registerFile, IntegerTy 64]\<rparr>) = Inl AssertionFailure
   \<and> analyzeFunction x86TargetInfo entryMemory (\<lambda>returns. returns) emptyCallInformation
        (readsRdxThenRdi\<lparr>arg_types := [PointerTy (IntegerTy 64)]\<rparr>) = Inl AssertionFailure"
  using analyzeFunction_precondition
          [of readsRdxThenRdi x86TargetInfo entryMemory "\<lambda>returns. returns" emptyCallInformation]
        analyzeFunction_precondition
          [of "readsRdxThenRdi\<lparr>arg_types := [registerFile, IntegerTy 64]\<rparr>"
              x86TargetInfo entryMemory "\<lambda>returns. returns" emptyCallInformation]
        analyzeFunction_precondition
          [of "readsRdxThenRdi\<lparr>arg_types := [PointerTy (IntegerTy 64)]\<rparr>"
              x86TargetInfo entryMemory "\<lambda>returns. returns" emptyCallInformation]
  by (simp add: readsRdxThenRdi_def registerFile_def)

subsection \<open>The applicability test\<close>

text \<open>
  C10. \<open>matches\<close> returns true exactly when the target name from index 3 on is
  \<open>x86\<close> and the executable type from index 6 on is \<open>ELF 64\<close>. The first three
  characters of the name and the first six of the type do not matter: replacing them by
  any others gives the same answer.
\<close>

theorem matches_suffixes:
  "(matches targetName executableType = Inr True)
     = (drop 3 targetName = ''x86'' \<and> drop 6 executableType = ''ELF 64'')
   \<and> (length p = 3 \<and> length p' = 3 \<and> length q = 6 \<and> length q' = 6 \<longrightarrow>
        matches (p @ t) (q @ x) = matches (p' @ t) (q' @ x)
        \<and> matches (p @ t) (q @ x) = Inr (t = ''x86'' \<and> x = ''ELF 64''))"
  by (auto simp: matches_def substr_def split: sum.splits)

theorem matches_suffixes_witness:
  "matches ''???x86'' ''??????ELF 64'' = Inr True
   \<and> matches ''???x86'' ''??????ELF 64'' = matches ''abcx86'' ''123456ELF 64''
   \<and> matches ''x86'' ''ELF 64'' \<noteq> Inr True"
  using matches_suffixes [of "''???x86''" "''??????ELF 64''" "''???''" "''abc''" "''??????''"
          "''123456''" "''x86''" "''ELF 64''"]
        matches_suffixes [of "''x86''" "''ELF 64''" "''???''" "''abc''" "''??????''"
          "''123456''" "''x86''" "''ELF 64''"]
  by auto

end
